theory Spec2Isabelle
  imports Complex_Main
begin

section \<open>Python floats\<close>

text \<open>
  A Python \<open>float\<close> is an IEEE-754 binary64 number. A finite one is modelled by the
  rational it denotes, and every arithmetic operation computes the exact rational result
  and rounds it to the nearest number with a 53-bit significand, ties to the even
  significand. NaN, the infinities, the sign of zero and the exponent range (overflow,
  subnormal numbers) are not modelled: every quantity below is a finite number far inside
  the range.
\<close>

type_synonym float = rat

function bitlen :: "int \<Rightarrow> int" where
  "bitlen n = (if n \<le> 0 then 0 else 1 + bitlen (n div 2))"
  by pat_completeness auto
termination
  by (relation "measure nat") auto

declare bitlen.simps [simp del]

function declen :: "int \<Rightarrow> int" where
  "declen n = (if n \<le> 0 then 0 else 1 + declen (n div 10))"
  by pat_completeness auto
termination
  by (relation "measure nat") auto

declare declen.simps [simp del]

definition round_half_even :: "rat \<Rightarrow> int" where
  "round_half_even x =
     (let f = \<lfloor>x\<rfloor>; r = x - of_int f
      in if r < 1 / 2 then f else if 1 / 2 < r then f + 1
         else if even f then f else f + 1)"

text \<open>\<open>ilog2 x\<close> is the binary exponent of a positive \<open>x\<close>: \<open>2 ^ e \<le> x < 2 ^ (e + 1)\<close>.\<close>

definition ilog2 :: "rat \<Rightarrow> int" where
  "ilog2 x =
     (let (p, q) = quotient_of x; k = bitlen p - bitlen q
      in if 2 powi k \<le> x then k else k - 1)"

definition ilog10 :: "rat \<Rightarrow> int" where
  "ilog10 x =
     (let (p, q) = quotient_of x; k = declen p - declen q
      in if 10 powi k \<le> x then k else k - 1)"

definition float_round :: "rat \<Rightarrow> float" where
  "float_round x =
     (if x = 0 then 0
      else let u = ilog2 \<bar>x\<bar> - 52
           in of_int (round_half_even (x / 2 powi u)) * 2 powi u)"

definition float_div :: "float \<Rightarrow> float \<Rightarrow> float" where
  "float_div x y = float_round (x / y)"

definition float_mul :: "float \<Rightarrow> float \<Rightarrow> float" where
  "float_mul x y = float_round (x * y)"

definition float_of_int :: "int \<Rightarrow> float" where
  "float_of_int n = float_round (of_int n)"

section \<open>Strings and number literals\<close>

datatype value_error =
    Invalid_symbol | No_lot_size_filter | Invalid_side | Quantity_not_positive

datatype error =
    BinanceConfigError
  | ValueError value_error
  | KeyError string
  | IndexError
  | BinanceAPIException
  | Unmodelled_float_literal

definition is_digit :: "char \<Rightarrow> bool" where
  "is_digit c \<longleftrightarrow> (48::nat) \<le> of_char c \<and> of_char c \<le> (57::nat)"

definition digit_val :: "char \<Rightarrow> int" where
  "digit_val c = int (of_char c) - 48"

definition digit_char :: "int \<Rightarrow> char" where
  "digit_char d = char_of (48 + nat d)"

definition int_of_digits :: "string \<Rightarrow> int" where
  "int_of_digits s = foldl (\<lambda>a c. 10 * a + digit_val c) 0 s"

function digits_of_int :: "int \<Rightarrow> string" where
  "digits_of_int n =
     (if n < 10 then [digit_char n] else digits_of_int (n div 10) @ [digit_char (n mod 10)])"
  by pat_completeness auto
termination
  by (relation "measure nat") auto

declare digits_of_int.simps [simp del]

text \<open>
  \<open>float(s)\<close> on a plain decimal literal: an optional sign, digits, an optional point and
  more digits, with at least one digit. The conversion is correctly rounded. Python accepts
  further forms (an exponent, \<open>inf\<close>, \<open>nan\<close>, underscores, blanks around the literal) and
  raises ValueError for the rest; the exchange sends plain decimals, and every other string
  is answered here by \<open>Unmodelled_float_literal\<close>.
\<close>

definition sign_split :: "string \<Rightarrow> bool \<times> string" where
  "sign_split s =
     (case s of
        [] \<Rightarrow> (False, s)
      | c # r \<Rightarrow> if c = CHR ''-'' then (True, r)
                 else if c = CHR ''+'' then (False, r) else (False, s))"

definition decimal_parts :: "string \<Rightarrow> (string \<times> string) option" where
  "decimal_parts body =
     (let ip = takeWhile is_digit body; rest = dropWhile is_digit body
      in case rest of
           [] \<Rightarrow> if ip = [] then None else Some (ip, [])
         | c # r \<Rightarrow>
             if c = CHR ''.'' \<and> list_all is_digit r \<and> (ip \<noteq> [] \<or> r \<noteq> [])
             then Some (ip, r) else None)"

definition py_float :: "string \<Rightarrow> error + float" where
  "py_float s =
     (let (neg, body) = sign_split s
      in case decimal_parts body of
           None \<Rightarrow> Inl Unmodelled_float_literal
         | Some (ip, f) \<Rightarrow>
             Inr (float_round
                    ((if neg then - 1 else 1) * of_int (int_of_digits (ip @ f))
                       / 10 ^ length f)))"

text \<open>
  \<open>f"{x:.{d}f}"\<close>: the exact value of \<open>x\<close> rounded half-even to \<open>d\<close> decimals, in
  fixed-point notation, with no point when \<open>d = 0\<close>.
\<close>

definition format_fixed :: "float \<Rightarrow> nat \<Rightarrow> string" where
  "format_fixed x d =
     (let n = round_half_even (\<bar>x\<bar> * 10 ^ d);
          ip = digits_of_int (n div 10 ^ d);
          fp = digits_of_int (n mod 10 ^ d)
      in (if x < 0 then ''-'' else '''') @ ip @
         (if d = 0 then '''' else ''.'' @ replicate (d - length fp) (CHR ''0'') @ fp))"

text \<open>
  \<open>str(x)\<close> is \<open>repr(x)\<close>: the shortest decimal digit string that converts back to \<open>x\<close>
  (the one nearest to \<open>x\<close> among the shortest), written in fixed-point notation when its
  decimal point position \<open>decpt\<close> satisfies \<open>-4 < decpt \<le> 16\<close> and in exponent notation
  otherwise.
\<close>

definition repr_candidates :: "rat \<Rightarrow> nat \<Rightarrow> (int \<times> int) list" where
  "repr_candidates x n =
     (let k = ilog10 x - int n + 1; s = x / 10 powi k
      in filter (\<lambda>(m, k). float_round (of_int m * 10 powi k) = x) [(\<lfloor>s\<rfloor>, k), (\<lceil>s\<rceil>, k)])"

definition nearest_candidate :: "rat \<Rightarrow> (int \<times> int) list \<Rightarrow> (int \<times> int) option" where
  "nearest_candidate x cs =
     (case cs of
        [] \<Rightarrow> None
      | [c] \<Rightarrow> Some c
      | (m1, k1) # (m2, k2) # _ \<Rightarrow>
          if \<bar>of_int m2 * 10 powi k2 - x\<bar> < \<bar>of_int m1 * 10 powi k1 - x\<bar>
          then Some (m2, k2) else Some (m1, k1))"

fun shortest_digits :: "rat \<Rightarrow> nat list \<Rightarrow> (int \<times> int)" where
  "shortest_digits x [] = (let k = ilog10 x - 16 in (round_half_even (x / 10 powi k), k))"
| "shortest_digits x (n # ns) =
     (case nearest_candidate x (repr_candidates x n) of
        Some c \<Rightarrow> c
      | None \<Rightarrow> shortest_digits x ns)"

function strip_zeros :: "int \<times> int \<Rightarrow> int \<times> int" where
  "strip_zeros (m, k) = (if m \<noteq> 0 \<and> m mod 10 = 0 then strip_zeros (m div 10, k + 1) else (m, k))"
  by pat_completeness auto
termination
  by (relation "measure (\<lambda>(m, k). nat \<bar>m\<bar>)") auto

declare strip_zeros.simps [simp del]

definition py_str :: "float \<Rightarrow> string" where
  "py_str x =
     (if x = 0 then ''0.0''
      else
        let (m, k) = strip_zeros (shortest_digits \<bar>x\<bar> [1 ..< 17]);
            ds = digits_of_int m;
            decpt = int (length ds) + k;
            sgn = (if x < 0 then ''-'' else '''')
        in if decpt \<le> - 4 \<or> 16 < decpt then
             let e = decpt - 1; es = digits_of_int \<bar>e\<bar>
             in sgn @ take 1 ds @ (if length ds = 1 then '''' else ''.'' @ drop 1 ds) @ ''e'' @
                (if e < 0 then ''-'' else ''+'') @ (if length es = 1 then ''0'' else '''') @ es
           else if decpt \<le> 0 then sgn @ ''0.'' @ replicate (nat (- decpt)) (CHR ''0'') @ ds
           else if decpt < int (length ds) then
             sgn @ take (nat decpt) ds @ ''.'' @ drop (nat decpt) ds
           else sgn @ ds @ replicate (nat decpt - length ds) (CHR ''0'') @ ''.0'')"

text \<open>\<open>s.upper()\<close> on ASCII text; a character outside \<open>a..z\<close> is left as it is.\<close>

definition upper_char :: "char \<Rightarrow> char" where
  "upper_char c =
     (let n = of_char c :: nat in if 97 \<le> n \<and> n \<le> 122 then char_of (n - 32) else c)"

definition upper :: "string \<Rightarrow> string" where
  "upper s = map upper_char s"

text \<open>\<open>s.rstrip("0")\<close> and \<open>s.split(".")\<close>.\<close>

definition rstrip :: "char \<Rightarrow> string \<Rightarrow> string" where
  "rstrip c s = rev (dropWhile (\<lambda>x. x = c) (rev s))"

fun split :: "char \<Rightarrow> string \<Rightarrow> string list" where
  "split c [] = [[]]"
| "split c (x # xs) =
     (if x = c then [] # split c xs
      else case split c xs of [] \<Rightarrow> [[x]] | w # ws \<Rightarrow> (x # w) # ws)"

section \<open>The exchange\<close>

text \<open>
  What the process reads from its surroundings: the two environment variables, and the
  exchange's answers to \<open>get_symbol_info\<close> and \<open>create_order\<close>. A filter of a symbol is
  a dictionary from field names to strings, kept as an association list.
\<close>

type_synonym filter_dict = "(string \<times> string) list"

record symbol_info =
  filters :: "filter_dict list"

record order_request =
  req_symbol :: string
  req_side :: string
  req_type :: string
  req_quantity :: string

record exchange =
  BINANCE_API_KEY :: "string option"
  BINANCE_API_SECRET :: "string option"
  get_symbol_info :: "string \<Rightarrow> symbol_info option"
  create_order :: "order_request \<Rightarrow> error + nat"

record client =
  api_key :: string
  api_secret :: string

text \<open>\<open>not v\<close> for the result of \<open>os.getenv\<close>: the variable is unset or empty.\<close>

definition not_set :: "string option \<Rightarrow> bool" where
  "not_set v \<longleftrightarrow> (case v of None \<Rightarrow> True | Some s \<Rightarrow> s = [])"

definition get_client :: "exchange \<Rightarrow> error + client" where
  "get_client ex =
     (if not_set (BINANCE_API_KEY ex) \<or> not_set (BINANCE_API_SECRET ex)
      then Inl BinanceConfigError
      else Inr \<lparr>api_key = the (BINANCE_API_KEY ex), api_secret = the (BINANCE_API_SECRET ex)\<rparr>)"

section \<open>Lot size\<close>

definition getitem :: "filter_dict \<Rightarrow> string \<Rightarrow> error + string" where
  "getitem d k = (case map_of d k of None \<Rightarrow> Inl (KeyError k) | Some v \<Rightarrow> Inr v)"

fun find_lot_size :: "filter_dict list \<Rightarrow> error + filter_dict" where
  "find_lot_size [] = Inl (ValueError No_lot_size_filter)"
| "find_lot_size (f # fs) =
     (case getitem f ''filterType'' of
        Inl e \<Rightarrow> Inl e
      | Inr t \<Rightarrow> if t = ''LOT_SIZE'' then Inr f else find_lot_size fs)"

definition get_lot_size_filter :: "exchange \<Rightarrow> string \<Rightarrow> error + filter_dict" where
  "get_lot_size_filter ex symbol =
     (case get_client ex of
        Inl e \<Rightarrow> Inl e
      | Inr c \<Rightarrow>
          (case get_symbol_info ex (upper symbol) of
             None \<Rightarrow> Inl (ValueError Invalid_symbol)
           | Some info \<Rightarrow> find_lot_size (filters info)))"

text \<open>
  The number of decimals the step supports: \<open>len(step_str.rstrip("0").split(".")[1])\<close>
  when the string has a point, 0 otherwise.
\<close>

definition step_decimals :: "string \<Rightarrow> error + nat" where
  "step_decimals step_str =
     (if CHR ''.'' \<in> set step_str then
        (case split (CHR ''.'') (rstrip (CHR ''0'') step_str) of
           _ # p # _ \<Rightarrow> Inr (length p)
         | _ \<Rightarrow> Inl IndexError)
      else Inr 0)"

definition adjust_quantity_to_lot :: "exchange \<Rightarrow> string \<Rightarrow> float \<Rightarrow> error + float" where
  "adjust_quantity_to_lot ex symbol quantity =
     (case get_lot_size_filter ex symbol of Inl e \<Rightarrow> Inl e | Inr lot \<Rightarrow>
      case getitem lot ''minQty'' of Inl e \<Rightarrow> Inl e | Inr min_str \<Rightarrow>
      case py_float min_str of Inl e \<Rightarrow> Inl e | Inr min_qty \<Rightarrow>
      case getitem lot ''stepSize'' of Inl e \<Rightarrow> Inl e | Inr step_str \<Rightarrow>
      case py_float step_str of Inl e \<Rightarrow> Inl e | Inr step_size \<Rightarrow>
        let qty = (if quantity < min_qty then min_qty else quantity);
            qty = (if 0 < step_size
                   then float_mul (float_of_int \<lfloor>float_div qty step_size\<rfloor>) step_size
                   else qty)
        in case step_decimals step_str of Inl e \<Rightarrow> Inl e | Inr decimals \<Rightarrow>
             py_float (format_fixed qty decimals))"

section \<open>Market orders\<close>

text \<open>
  The result of \<open>place_market_order\<close> is paired with the requests it sent to the exchange,
  so that a call that fails before \<open>create_order\<close> is told from one that sent an order.
\<close>

definition place_market_order ::
  "exchange \<Rightarrow> string \<Rightarrow> string \<Rightarrow> float \<Rightarrow> (error + nat) \<times> order_request list" where
  "place_market_order ex symbol side quantity =
     (case get_client ex of
        Inl e \<Rightarrow> (Inl e, [])
      | Inr c \<Rightarrow>
          let side = upper side
          in if side \<noteq> ''BUY'' \<and> side \<noteq> ''SELL'' then (Inl (ValueError Invalid_side), [])
             else if quantity \<le> 0 then (Inl (ValueError Quantity_not_positive), [])
             else
               (case adjust_quantity_to_lot ex symbol quantity of
                  Inl e \<Rightarrow> (Inl e, [])
                | Inr adj_quantity \<Rightarrow>
                    let req = \<lparr>req_symbol = upper symbol, req_side = side,
                               req_type = ''MARKET'', req_quantity = py_str adj_quantity\<rparr>
                    in (create_order ex req, [req])))"

section \<open>Indicators\<close>

text \<open>
  A row of the candle table of \<open>get_klines_dataframe\<close>, and the same row with the five
  indicator columns that \<open>add_basic_indicators\<close> adds. A column of optional numbers is a
  pandas series whose NaN entries are \<open>None\<close>. The numbers of the indicator columns are
  computed here in exact arithmetic.
\<close>

record candle =
  open_time :: int
  open_price :: rat
  high :: rat
  low :: rat
  close :: rat
  volume :: rat
  close_time :: int
  quote_asset_volume :: string
  number_of_trades :: int
  taker_buy_base :: string
  taker_buy_quote :: string
  ignore :: string

record indicator_row = candle +
  sma_fast :: "rat option"
  sma_slow :: "rat option"
  rsi :: "rat option"
  macd :: "rat option"
  macd_signal :: "rat option"

type_synonym series = "rat option list"

subsection \<open>pandas: rolling mean and exponentially weighted mean\<close>

text \<open>
  \<open>s.rolling(window=w).mean()\<close>: one pass that adds the entering value, removes the value
  that leaves the window, and yields the mean once the window holds \<open>min_periods\<close>
  observations; \<open>min_periods\<close> defaults to the window.
\<close>

definition add_obs :: "rat option \<Rightarrow> rat \<times> nat \<Rightarrow> rat \<times> nat" where
  "add_obs v acc = (case v of None \<Rightarrow> acc | Some x \<Rightarrow> (fst acc + x, snd acc + 1))"

definition remove_obs :: "rat option \<Rightarrow> rat \<times> nat \<Rightarrow> rat \<times> nat" where
  "remove_obs v acc = (case v of None \<Rightarrow> acc | Some x \<Rightarrow> (fst acc - x, snd acc - 1))"

fun roll_loop :: "nat \<Rightarrow> nat \<Rightarrow> series \<Rightarrow> nat \<Rightarrow> rat \<times> nat \<Rightarrow> series \<Rightarrow> series" where
  "roll_loop w minp vals i acc [] = []"
| "roll_loop w minp vals i acc (v # vs) =
     (let acc1 = add_obs v acc;
          acc2 = (if w \<le> i then remove_obs (vals ! (i - w)) acc1 else acc1)
      in (if minp \<le> snd acc2 \<and> 0 < snd acc2 then Some (fst acc2 / of_nat (snd acc2)) else None)
         # roll_loop w minp vals (Suc i) acc2 vs)"

definition rolling_mean :: "nat \<Rightarrow> series \<Rightarrow> series" where
  "rolling_mean w vals = roll_loop w w vals 0 (0, 0) vals"

text \<open>
  \<open>s.ewm(alpha=a, min_periods=p, adjust=False).mean()\<close>: the running weighted mean
  \<open>weighted\<close> starts at the first observation; a missing value ages the old weight and
  leaves the mean; an entry is reported once \<open>max p 1\<close> observations have been seen.
\<close>

fun ewm_loop :: "rat \<Rightarrow> nat \<Rightarrow> rat option \<Rightarrow> rat \<Rightarrow> nat \<Rightarrow> series \<Rightarrow> series" where
  "ewm_loop a minp weighted old_wt nobs [] = []"
| "ewm_loop a minp weighted old_wt nobs (cur # vals) =
     (let nobs1 = (if cur = None then nobs else Suc nobs);
          (weighted1, old_wt1) =
            (case weighted of
               None \<Rightarrow> (cur, old_wt)
             | Some w \<Rightarrow>
                 (let ow = old_wt * (1 - a)
                  in case cur of
                       None \<Rightarrow> (Some w, ow)
                     | Some c \<Rightarrow>
                         (Some (if w \<noteq> c then (ow * w + a * c) / (ow + a) else w), 1)))
      in (if minp \<le> nobs1 then weighted1 else None)
         # ewm_loop a minp weighted1 old_wt1 nobs1 vals)"

definition ewm_mean :: "rat \<Rightarrow> nat \<Rightarrow> series \<Rightarrow> series" where
  "ewm_mean a min_periods vals = ewm_loop a (max min_periods 1) None 1 0 vals"

definition span_alpha :: "nat \<Rightarrow> rat" where
  "span_alpha periods = 2 / (of_nat periods + 1)"

subsection \<open>ta: RSI and MACD\<close>

text \<open>
  \<open>ta.momentum.RSIIndicator(close, window=14)\<close> and \<open>ta.trend.MACD(close)\<close> with their
  defaults (\<open>window_slow=26\<close>, \<open>window_fast=12\<close>, \<open>window_sign=9\<close>, \<open>fillna=False\<close>).
  With \<open>fillna=False\<close> the library computes every exponential mean with
  \<open>min_periods\<close> equal to its window.
\<close>

definition diff :: "series \<Rightarrow> series" where
  "diff vals =
     (case vals of [] \<Rightarrow> []
      | v # vs \<Rightarrow> None # map2 (\<lambda>x y. case (x, y) of (Some p, Some q) \<Rightarrow> Some (p - q) | _ \<Rightarrow> None)
                           vs vals)"

definition up_direction :: "series \<Rightarrow> series" where
  "up_direction d = map (\<lambda>v. case v of None \<Rightarrow> Some 0 | Some x \<Rightarrow> Some (if 0 < x then x else 0)) d"

definition down_direction :: "series \<Rightarrow> series" where
  "down_direction d =
     map (\<lambda>v. case v of None \<Rightarrow> Some 0 | Some x \<Rightarrow> Some (- (if x < 0 then x else 0))) d"

definition rsi_value :: "rat option \<Rightarrow> rat option \<Rightarrow> rat option" where
  "rsi_value emaup emadn =
     (case (emaup, emadn) of
        (Some u, Some d) \<Rightarrow> Some (if d = 0 then 100 else 100 - 100 / (1 + u / d))
      | _ \<Rightarrow> None)"

definition rsi_series :: "nat \<Rightarrow> series \<Rightarrow> series" where
  "rsi_series window cl =
     (let d = diff cl;
          emaup = ewm_mean (1 / of_nat window) window (up_direction d);
          emadn = ewm_mean (1 / of_nat window) window (down_direction d)
      in map2 rsi_value emaup emadn)"

definition sub_opt :: "rat option \<Rightarrow> rat option \<Rightarrow> rat option" where
  "sub_opt x y = (case (x, y) of (Some p, Some q) \<Rightarrow> Some (p - q) | _ \<Rightarrow> None)"

definition ema :: "series \<Rightarrow> nat \<Rightarrow> series" where
  "ema vals periods = ewm_mean (span_alpha periods) periods vals"

definition macd_series :: "series \<Rightarrow> series" where
  "macd_series cl = map2 sub_opt (ema cl 12) (ema cl 26)"

definition macd_signal_series :: "series \<Rightarrow> series" where
  "macd_signal_series cl = ema (macd_series cl) 9"

subsection \<open>The pipeline\<close>

definition add_basic_indicators :: "candle list \<Rightarrow> indicator_row list" where
  "add_basic_indicators df =
     (let cl = map (\<lambda>c. Some (close c)) df;
          c_sma_fast = rolling_mean 9 cl;
          c_sma_slow = rolling_mean 21 cl;
          c_rsi = rsi_series 14 cl;
          c_macd = macd_series cl;
          c_macd_signal = macd_signal_series cl
      in map (\<lambda>i. candle.extend (df ! i)
                    (indicator_row.fields (c_sma_fast ! i) (c_sma_slow ! i) (c_rsi ! i)
                       (c_macd ! i) (c_macd_signal ! i)))
           [0 ..< length df])"

section \<open>Sample data\<close>

text \<open>
  Concrete inputs at which the theorems below are evaluated: a configured exchange that
  knows the symbol \<open>BTCUSDT\<close> with a given LOT_SIZE filter, the same exchange without
  its API key, and a candle with a given closing price. \<open>count_obs\<close> counts the
  observations (the entries that are not NaN) of a series.
\<close>

definition lot_exchange :: "string \<Rightarrow> string \<Rightarrow> exchange" where
  "lot_exchange min_str step_str =
     \<lparr>BINANCE_API_KEY = Some ''key'', BINANCE_API_SECRET = Some ''secret'',
      get_symbol_info = (\<lambda>s. if s = ''BTCUSDT'' then
         Some \<lparr>filters =
           [[(''filterType'', ''PRICE_FILTER''), (''minPrice'', ''0.01000000''),
             (''maxPrice'', ''1000000.00000000''), (''tickSize'', ''0.01000000'')],
            [(''filterType'', ''LOT_SIZE''), (''minQty'', min_str),
             (''maxQty'', ''9000.00000000''), (''stepSize'', step_str)]]\<rparr>
         else None),
      create_order = (\<lambda>r. Inr 1)\<rparr>"

definition unconfigured_exchange :: exchange where
  "unconfigured_exchange = (lot_exchange ''0.00001000'' ''0.00001000'')\<lparr>BINANCE_API_KEY := None\<rparr>"

definition sample_candle :: "rat \<Rightarrow> candle" where
  "sample_candle c =
     \<lparr>open_time = 0, open_price = c, high = c, low = c, close = c, volume = 1,
      close_time = 3599999, quote_asset_volume = ''1'', number_of_trades = 1,
      taker_buy_base = ''1'', taker_buy_quote = ''1'', ignore = ''0''\<rparr>"

definition count_obs :: "series \<Rightarrow> nat" where
  "count_obs vals = length (filter (\<lambda>v. v \<noteq> None) vals)"

section \<open>Number literals: lemmas\<close>

lemma digit_char_props:
  assumes "0 \<le> d" and "d < 10"
  shows "is_digit (digit_char d)" and "digit_val (digit_char d) = d"
    and "digit_char d \<noteq> CHR ''.''" and "digit_char d \<noteq> CHR ''-''" and "digit_char d \<noteq> CHR ''+''"
proof -
  have n: "nat d < 10" using assms by simp
  then have m: "(48 + nat d) mod 256 = 48 + nat d" by simp
  have oc: "of_char (digit_char d) = (48 + nat d :: nat)"
    unfolding digit_char_def by (simp only: of_char_of m)
  show "is_digit (digit_char d)" unfolding is_digit_def oc using n by simp
  show "digit_val (digit_char d) = d" unfolding digit_val_def oc using assms by simp
  have "of_char (digit_char d) \<noteq> (of_char (CHR ''.'') :: nat)" unfolding oc by simp
  then show "digit_char d \<noteq> CHR ''.''" by auto
  have "of_char (digit_char d) \<noteq> (of_char (CHR ''-'') :: nat)" unfolding oc by simp
  then show "digit_char d \<noteq> CHR ''-''" by auto
  have "of_char (digit_char d) \<noteq> (of_char (CHR ''+'') :: nat)" unfolding oc by simp
  then show "digit_char d \<noteq> CHR ''+''" by auto
qed

lemma not_digit_point: "\<not> is_digit (CHR ''.'')"
  by (simp add: is_digit_def)

lemma is_digit_zero: "is_digit (CHR ''0'')" and digit_val_zero: "digit_val (CHR ''0'') = 0"
  by (simp_all add: is_digit_def digit_val_def)

lemma int_of_digits_snoc: "int_of_digits (xs @ [c]) = 10 * int_of_digits xs + digit_val c"
  by (simp add: int_of_digits_def)

lemma int_of_digits_append:
  "int_of_digits (xs @ ys) = int_of_digits xs * 10 ^ length ys + int_of_digits ys"
proof (induction ys rule: rev_induct)
  case Nil
  then show ?case by (simp add: int_of_digits_def)
next
  case (snoc y ys)
  have "int_of_digits (xs @ ys @ [y]) = 10 * int_of_digits (xs @ ys) + digit_val y"
    using int_of_digits_snoc[of "xs @ ys" y] by simp
  then show ?case by (simp add: snoc.IH int_of_digits_snoc algebra_simps)
qed

lemma int_of_digits_zeros: "int_of_digits (replicate k (CHR ''0'')) = 0"
proof (induction k)
  case 0
  then show ?case by (simp add: int_of_digits_def)
next
  case (Suc k)
  have "int_of_digits ([CHR ''0''] @ replicate k (CHR ''0'')) =
      int_of_digits [CHR ''0''] * 10 ^ length (replicate k (CHR ''0'')) + int_of_digits (replicate k (CHR ''0''))"
    by (rule int_of_digits_append)
  moreover have "int_of_digits [CHR ''0''] = 0" by (simp add: int_of_digits_def digit_val_zero)
  ultimately show ?case using Suc by simp
qed

lemma digits_of_int_props:
  assumes "0 \<le> n"
  shows "list_all is_digit (digits_of_int n) \<and> digits_of_int n \<noteq> [] \<and>
         int_of_digits (digits_of_int n) = n"
  using assms
proof (induction n rule: digits_of_int.induct)
  case (1 n)
  show ?case
  proof (cases "n < 10")
    case True
    then have "digits_of_int n = [digit_char n]" by (simp add: digits_of_int.simps[of n])
    then show ?thesis using digit_char_props[OF "1.prems" True]
      by (simp add: int_of_digits_def)
  next
    case False
    then have eq: "digits_of_int n = digits_of_int (n div 10) @ [digit_char (n mod 10)]"
      by (simp add: digits_of_int.simps[of n])
    have ih: "list_all is_digit (digits_of_int (n div 10)) \<and> digits_of_int (n div 10) \<noteq> [] \<and>
         int_of_digits (digits_of_int (n div 10)) = n div 10"
      using "1.IH"[OF False] "1.prems" by simp
    have d: "is_digit (digit_char (n mod 10))" "digit_val (digit_char (n mod 10)) = n mod 10"
      using digit_char_props[of "n mod 10"] by simp_all
    show ?thesis unfolding eq using ih d by (simp add: int_of_digits_snoc)
  qed
qed

lemma length_digits_of_int:
  assumes "0 \<le> n" and "n < 10 ^ d" and "0 < d"
  shows "length (digits_of_int n) \<le> d"
  using assms
proof (induction n arbitrary: d rule: digits_of_int.induct)
  case (1 n)
  show ?case
  proof (cases "n < 10")
    case True
    then have "digits_of_int n = [digit_char n]" by (simp add: digits_of_int.simps[of n])
    then show ?thesis using "1.prems" by simp
  next
    case False
    then have eq: "digits_of_int n = digits_of_int (n div 10) @ [digit_char (n mod 10)]"
      by (simp add: digits_of_int.simps[of n])
    obtain d' where d': "d = Suc d'" using "1.prems"(3) by (cases d) auto
    have "d' \<noteq> 0"
    proof
      assume "d' = 0"
      with "1.prems"(2) d' have "n < 10" by simp
      with False show False by simp
    qed
    then have pos: "0 < d'" by simp
    have "n div 10 < 10 ^ d'" using "1.prems"(2) d' by simp
    then have "length (digits_of_int (n div 10)) \<le> d'"
      using "1.IH"[OF False _ _ pos] "1.prems"(1) by simp
    then show ?thesis unfolding eq d' by simp
  qed
qed

lemma takeWhile_digits:
  assumes "list_all is_digit ip" and "rest = [] \<or> \<not> is_digit (hd rest)"
  shows "takeWhile is_digit (ip @ rest) = ip" and "dropWhile is_digit (ip @ rest) = rest"
proof -
  have a: "\<forall>x \<in> set ip. is_digit x" using assms(1) by (simp add: list_all_iff)
  have t: "takeWhile is_digit rest = []" and d: "dropWhile is_digit rest = rest"
    using assms(2) by (cases rest; simp)+
  show "takeWhile is_digit (ip @ rest) = ip" using a t by (simp add: takeWhile_append2)
  show "dropWhile is_digit (ip @ rest) = rest" using a d by (simp add: dropWhile_append2)
qed

lemma decimal_parts_digits:
  assumes "list_all is_digit ip" and "ip \<noteq> []" and "list_all is_digit f"
    and "rest = [] \<and> f = [] \<or> rest = CHR ''.'' # f"
  shows "decimal_parts (ip @ rest) = Some (ip, f)"
proof -
  have r: "rest = [] \<or> \<not> is_digit (hd rest)"
    using assms(4) by (auto simp: not_digit_point)
  have tw: "takeWhile is_digit (ip @ rest) = ip" and dw: "dropWhile is_digit (ip @ rest) = rest"
    using takeWhile_digits[OF assms(1) r] by simp_all
  have "decimal_parts (ip @ rest) =
      (case rest of
           [] \<Rightarrow> if ip = [] then None else Some (ip, [])
         | c # r \<Rightarrow>
             if c = CHR ''.'' \<and> list_all is_digit r \<and> (ip \<noteq> [] \<or> r \<noteq> [])
             then Some (ip, r) else None)"
    unfolding decimal_parts_def Let_def tw dw ..
  also have "\<dots> = Some (ip, f)"
    using assms(2,3,4) by auto
  finally show ?thesis .
qed

lemma sign_split_digit:
  assumes "list_all is_digit ip" and "ip \<noteq> []"
  shows "sign_split (ip @ rest) = (False, ip @ rest)"
proof -
  obtain c cs where ip: "ip = c # cs" using assms(2) by (cases ip) auto
  have "is_digit c" using assms(1) ip by simp
  then have "c \<noteq> CHR ''-''" "c \<noteq> CHR ''+''" by (auto simp: is_digit_def)
  then show ?thesis by (simp add: sign_split_def ip)
qed

lemma py_float_digits:
  assumes "list_all is_digit ip" and "ip \<noteq> []" and "list_all is_digit f"
    and "rest = [] \<and> f = [] \<or> rest = CHR ''.'' # f"
  shows "py_float (ip @ rest) =
           Inr (float_round (1 * of_int (int_of_digits (ip @ f)) / 10 ^ length f))"
    and "py_float (CHR ''-'' # ip @ rest) =
           Inr (float_round (- 1 * of_int (int_of_digits (ip @ f)) / 10 ^ length f))"
proof -
  have dp: "decimal_parts (ip @ rest) = Some (ip, f)"
    by (rule decimal_parts_digits[OF assms])
  have ss: "sign_split (ip @ rest) = (False, ip @ rest)"
    by (rule sign_split_digit[OF assms(1,2)])
  show "py_float (ip @ rest) =
           Inr (float_round (1 * of_int (int_of_digits (ip @ f)) / 10 ^ length f))"
    unfolding py_float_def ss Let_def prod.case dp by simp
  have sm: "sign_split (CHR ''-'' # ip @ rest) = (True, ip @ rest)"
    by (simp add: sign_split_def)
  show "py_float (CHR ''-'' # ip @ rest) =
           Inr (float_round (- 1 * of_int (int_of_digits (ip @ f)) / 10 ^ length f))"
    unfolding py_float_def sm Let_def prod.case dp by simp
qed

lemma round_half_even_nonneg: "0 \<le> x \<Longrightarrow> 0 \<le> round_half_even x"
  by (auto simp: round_half_even_def Let_def)

lemma py_float_format_fixed:
  "py_float (format_fixed x d) =
     Inr (float_round ((if x < 0 then - 1 else 1) *
            of_int (round_half_even (\<bar>x\<bar> * 10 ^ d)) / 10 ^ d))"
proof -
  define n where "n = round_half_even (\<bar>x\<bar> * 10 ^ d)"
  define ip where "ip = digits_of_int (n div 10 ^ d)"
  define fp where "fp = digits_of_int (n mod 10 ^ d)"
  define pad where "pad = replicate (d - length fp) (CHR ''0'') @ fp"
  define f where "f = (if d = 0 then [] else pad)"
  define rest where "rest = (if d = 0 then [] else CHR ''.'' # pad)"
  have n0: "0 \<le> n" unfolding n_def by (rule round_half_even_nonneg) simp
  have ipn: "0 \<le> n div 10 ^ d" using n0 by (simp add: pos_imp_zdiv_nonneg_iff)
  have fpn: "0 \<le> n mod 10 ^ d" by simp
  have ip_props: "list_all is_digit ip" "ip \<noteq> []" "int_of_digits ip = n div 10 ^ d"
    using digits_of_int_props[OF ipn] by (simp_all add: ip_def)
  have fp_props: "list_all is_digit fp" "int_of_digits fp = n mod 10 ^ d"
    using digits_of_int_props[OF fpn] by (simp_all add: fp_def)
  have pad_digits: "list_all is_digit pad"
    using fp_props(1) by (auto simp: pad_def list_all_iff is_digit_zero)
  have f_digits: "list_all is_digit f" using pad_digits by (simp add: f_def)
  have pad_val: "int_of_digits pad = n mod 10 ^ d"
    unfolding pad_def by (simp add: int_of_digits_append int_of_digits_zeros fp_props(2))
  have pad_len: "0 < d \<Longrightarrow> length pad = d"
  proof -
    assume d: "0 < d"
    have "n mod 10 ^ d < 10 ^ d" by simp
    then have "length fp \<le> d" unfolding fp_def using length_digits_of_int[OF fpn _ d] by simp
    then show "length pad = d" by (simp add: pad_def)
  qed
  have shape: "rest = [] \<and> f = [] \<or> rest = CHR ''.'' # f"
    by (simp add: rest_def f_def)
  have val: "int_of_digits (ip @ f) = n"
  proof (cases "d = 0")
    case True
    then show ?thesis using ip_props(3) by (simp add: f_def)
  next
    case False
    then have "length pad = d" using pad_len by simp
    then have "int_of_digits (ip @ pad) = n div 10 ^ d * 10 ^ d + n mod 10 ^ d"
      by (simp add: int_of_digits_append ip_props(3) pad_val)
    also have "\<dots> = n" by (rule div_mult_mod_eq)
    finally show ?thesis using False by (simp add: f_def)
  qed
  have len: "length f = d"
    using pad_len by (cases "d = 0") (simp_all add: f_def)
  have ff: "format_fixed x d = (if x < 0 then ''-'' else []) @ ip @ rest"
    by (simp add: format_fixed_def Let_def n_def ip_def fp_def pad_def rest_def)
  show ?thesis
  proof (cases "x < 0")
    case True
    then have "format_fixed x d = CHR ''-'' # ip @ rest" by (simp add: ff)
    then show ?thesis
      using py_float_digits(2)[OF ip_props(1,2) f_digits shape] True
      by (simp add: val len n_def)
  next
    case False
    then have "format_fixed x d = ip @ rest" by (simp add: ff)
    then show ?thesis
      using py_float_digits(1)[OF ip_props(1,2) f_digits shape] False
      by (simp add: val len n_def)
  qed
qed

section \<open>Lot size: lemmas\<close>


lemma split_append_sep: "c \<notin> set a \<Longrightarrow> split c (a @ c # b) = a # split c b"
  by (induction a) auto

lemma split_two: "c \<in> set s \<Longrightarrow> \<exists>a b r. split c s = a # b # r"
proof -
  assume "c \<in> set s"
  then obtain a b where s: "s = a @ c # b" and "c \<notin> set a"
    by (meson split_list_first)
  then have "split c s = a # split c b" by (simp add: split_append_sep)
  moreover have "split c b \<noteq> []" by (induction b) (auto split: list.splits)
  ultimately show ?thesis by (cases "split c b") auto
qed

lemma in_set_dropWhile: "x \<in> set xs \<Longrightarrow> \<not> P x \<Longrightarrow> x \<in> set (dropWhile P xs)"
  by (induction xs) auto

lemma in_set_rstrip: "x \<in> set s \<Longrightarrow> x \<noteq> c \<Longrightarrow> x \<in> set (rstrip c s)"
  by (simp add: rstrip_def in_set_dropWhile)

lemma step_decimals_total: "\<exists>d. step_decimals s = Inr d"
proof (cases "CHR ''.'' \<in> set s")
  case True
  then have "CHR ''.'' \<in> set (rstrip (CHR ''0'') s)" by (rule in_set_rstrip) simp
  then obtain a b r where "split (CHR ''.'') (rstrip (CHR ''0'') s) = a # b # r"
    using split_two by blast
  then show ?thesis using True by (simp add: step_decimals_def)
next
  case False
  then show ?thesis by (simp add: step_decimals_def)
qed



lemma adjust_quantity_to_lot_eval:
  assumes "get_lot_size_filter ex symbol = Inr lot"
    and "getitem lot ''minQty'' = Inr min_str" and "py_float min_str = Inr min_qty"
    and "getitem lot ''stepSize'' = Inr step_str" and "py_float step_str = Inr step_size"
    and "step_decimals step_str = Inr decimals"
  shows "adjust_quantity_to_lot ex symbol quantity =
     (let qty = (if quantity < min_qty then min_qty else quantity);
          qty = (if 0 < step_size
                 then float_mul (float_of_int \<lfloor>float_div qty step_size\<rfloor>) step_size
                 else qty)
      in Inr (float_round ((if qty < 0 then - 1 else 1) *
            of_int (round_half_even (\<bar>qty\<bar> * 10 ^ decimals)) / 10 ^ decimals)))"
  by (simp add: adjust_quantity_to_lot_def assms py_float_format_fixed Let_def)

section \<open>Indicators: lemmas\<close>

lemma length_roll_loop: "length (roll_loop w minp vals i acc vs) = length vs"
  by (induction vs arbitrary: i acc) (simp_all add: Let_def)

lemma length_rolling_mean: "length (rolling_mean w vals) = length vals"
  by (simp add: rolling_mean_def length_roll_loop)

lemma length_ewm_loop: "length (ewm_loop a minp weighted old_wt nobs vals) = length vals"
  by (induction vals arbitrary: weighted old_wt nobs) (simp_all add: Let_def split: prod.splits)

lemma length_ewm_mean: "length (ewm_mean a p vals) = length vals"
  by (simp add: ewm_mean_def length_ewm_loop)

lemma roll_loop_None_iff:
  assumes "\<forall>v \<in> set vals. v \<noteq> None" and "vs = drop i vals" and "snd acc = min i w"
    and "0 < w" and "j < length vs"
  shows "roll_loop w w vals i acc vs ! j = None \<longleftrightarrow> i + j + 1 < w"
  using assms(2,3,5)
proof (induction vs arbitrary: i acc j)
  case Nil
  then show ?case by simp
next
  case (Cons v vs)
  have i_lt: "i < length vals"
  proof (rule ccontr)
    assume "\<not> i < length vals"
    then have "drop i vals = []" by simp
    with Cons.prems(1) show False by simp
  qed
  have dr: "drop i vals = vals ! i # drop (Suc i) vals"
    using i_lt by (simp add: Cons_nth_drop_Suc)
  have v_eq: "v = vals ! i" and vs_eq: "vs = drop (Suc i) vals"
    using Cons.prems(1) dr by simp_all
  have "vals ! i \<in> set vals" using i_lt by simp
  with assms(1) v_eq obtain x where x: "v = Some x" by auto
  have "i - w < length vals" using i_lt by simp
  then have "vals ! (i - w) \<in> set vals" by simp
  with assms(1) obtain y where y: "vals ! (i - w) = Some y" by auto
  define acc2 where "acc2 = (if w \<le> i then remove_obs (vals ! (i - w)) (add_obs v acc) else add_obs v acc)"
  have snd2: "snd acc2 = min (Suc i) w"
    using Cons.prems(2) assms(4) by (auto simp: acc2_def add_obs_def remove_obs_def x y)
  have step: "roll_loop w w vals i acc (v # vs) =
      (if w \<le> snd acc2 \<and> 0 < snd acc2 then Some (fst acc2 / of_nat (snd acc2)) else None)
        # roll_loop w w vals (Suc i) acc2 vs"
    by (simp add: acc2_def Let_def)
  show ?case
  proof (cases j)
    case 0
    have "roll_loop w w vals i acc (v # vs) ! 0 = None \<longleftrightarrow> \<not> (w \<le> snd acc2 \<and> 0 < snd acc2)"
      unfolding step by simp
    also have "\<dots> \<longleftrightarrow> i + 0 + 1 < w" using snd2 assms(4) by auto
    finally show ?thesis using 0 by simp
  next
    case (Suc j')
    have j': "j' < length vs" using Cons.prems(3) Suc by simp
    have "roll_loop w w vals (Suc i) acc2 vs ! j' = None \<longleftrightarrow> Suc i + j' + 1 < w"
      by (rule Cons.IH[OF vs_eq snd2 j'])
    moreover have "roll_loop w w vals i acc (v # vs) ! j = roll_loop w w vals (Suc i) acc2 vs ! j'"
      unfolding step Suc by simp
    ultimately show ?thesis using Suc by simp
  qed
qed

lemma rolling_mean_None_iff:
  assumes "\<forall>v \<in> set vals. v \<noteq> None" and "0 < w" and "j < length vals"
  shows "rolling_mean w vals ! j = None \<longleftrightarrow> j + 1 < w"
  using roll_loop_None_iff[of vals vals 0 "(0, 0)" w j] assms
  by (simp add: rolling_mean_def)

lemma ewm_loop_None_iff:
  assumes "1 \<le> minp" and "weighted = None \<longrightarrow> nobs = 0" and "j < length vals"
  shows "ewm_loop a minp weighted old_wt nobs vals ! j = None
           \<longleftrightarrow> nobs + count_obs (take (Suc j) vals) < minp"
  using assms(2,3)
proof (induction vals arbitrary: weighted old_wt nobs j)
  case Nil
  then show ?case by simp
next
  case (Cons cur vals)
  define nobs1 where "nobs1 = (if cur = None then nobs else Suc nobs)"
  define st where "st = (case weighted of
               None \<Rightarrow> (cur, old_wt)
             | Some w \<Rightarrow>
                 (let ow = old_wt * (1 - a)
                  in case cur of
                       None \<Rightarrow> (Some w, ow)
                     | Some c \<Rightarrow>
                         (Some (if w \<noteq> c then (ow * w + a * c) / (ow + a) else w), 1)))"
  have step: "ewm_loop a minp weighted old_wt nobs (cur # vals) =
      (if minp \<le> nobs1 then fst st else None) # ewm_loop a minp (fst st) (snd st) nobs1 vals"
    by (simp add: nobs1_def st_def Let_def split: prod.splits)
  have inv: "fst st = None \<longrightarrow> nobs1 = 0"
    using Cons.prems(1) by (auto simp: st_def nobs1_def Let_def split: option.splits)
  have cnt: "nobs + count_obs (take (Suc j) (cur # vals)) = nobs1 + count_obs (take j vals)"
    by (simp add: count_obs_def nobs1_def)
  show ?case
  proof (cases j)
    case 0
    have "ewm_loop a minp weighted old_wt nobs (cur # vals) ! 0 = None
        \<longleftrightarrow> (if minp \<le> nobs1 then fst st else None) = None"
      unfolding step by simp
    also have "\<dots> \<longleftrightarrow> nobs1 < minp" using inv assms(1) by auto
    finally show ?thesis using 0 cnt by (simp add: count_obs_def)
  next
    case (Suc j')
    have j': "j' < length vals" using Cons.prems(2) Suc by simp
    have "ewm_loop a minp (fst st) (snd st) nobs1 vals ! j' = None
        \<longleftrightarrow> nobs1 + count_obs (take (Suc j') vals) < minp"
      by (rule Cons.IH[OF inv j'])
    moreover have "ewm_loop a minp weighted old_wt nobs (cur # vals) ! j
        = ewm_loop a minp (fst st) (snd st) nobs1 vals ! j'"
      unfolding step Suc by simp
    ultimately show ?thesis using Suc cnt by simp
  qed
qed

lemma ewm_mean_None_iff:
  assumes "j < length vals"
  shows "ewm_mean a p vals ! j = None \<longleftrightarrow> count_obs (take (Suc j) vals) < max p 1"
  using ewm_loop_None_iff[of "max p 1" None 0 j vals a 1] assms
  by (simp add: ewm_mean_def)

lemma count_obs_from:
  assumes "\<forall>j < length vals. vals ! j = None \<longleftrightarrow> j < k" and "n \<le> length vals"
  shows "count_obs (take n vals) = n - k"
  using assms(2)
proof (induction n)
  case 0
  then show ?case by (simp add: count_obs_def)
next
  case (Suc n)
  then have n: "n < length vals" by simp
  have "count_obs (take (Suc n) vals) = count_obs (take n vals) + (if vals ! n = None then 0 else 1)"
    using n by (simp add: take_Suc_conv_app_nth count_obs_def)
  also have "\<dots> = (n - k) + (if n < k then 0 else 1)"
    using Suc n assms(1) by simp
  also have "\<dots> = Suc n - k" by auto
  finally show ?case .
qed

lemma ema_None_iff:
  assumes "\<forall>j < length vals. vals ! j = None \<longleftrightarrow> j < k" and "i < length vals" and "0 < p"
  shows "ema vals p ! i = None \<longleftrightarrow> i + 1 < k + p"
proof -
  have "count_obs (take (Suc i) vals) = Suc i - k"
    using count_obs_from[OF assms(1), of "Suc i"] assms(2) by simp
  moreover have "max p 1 = p" using assms(3) by simp
  ultimately show ?thesis
    using ewm_mean_None_iff[OF assms(2), of "span_alpha p" p]
    by (auto simp: ema_def)
qed

lemma length_ema: "length (ema vals p) = length vals"
  by (simp add: ema_def length_ewm_mean)

lemma length_macd_series: "length (macd_series cl) = length cl"
  by (simp add: macd_series_def length_ema)

lemma sub_opt_None_iff: "sub_opt x y = None \<longleftrightarrow> x = None \<or> y = None"
  by (simp add: sub_opt_def split: option.splits)

lemma macd_series_None_iff:
  assumes "\<forall>j < length cl. cl ! j \<noteq> None" and "i < length cl"
  shows "macd_series cl ! i = None \<longleftrightarrow> i < 25"
proof -
  have all: "\<forall>j < length cl. cl ! j = None \<longleftrightarrow> j < 0" using assms(1) by simp
  have f: "ema cl 12 ! i = None \<longleftrightarrow> i + 1 < 0 + 12"
    by (rule ema_None_iff[OF all assms(2)]) simp
  have s: "ema cl 26 ! i = None \<longleftrightarrow> i + 1 < 0 + 26"
    by (rule ema_None_iff[OF all assms(2)]) simp
  have "macd_series cl ! i = sub_opt (ema cl 12 ! i) (ema cl 26 ! i)"
    using assms(2) by (simp add: macd_series_def length_ema)
  then show ?thesis using f s by (auto simp: sub_opt_None_iff)
qed

lemma macd_signal_series_None_iff:
  assumes "\<forall>j < length cl. cl ! j \<noteq> None" and "i < length cl"
  shows "macd_signal_series cl ! i = None \<longleftrightarrow> i < 33"
proof -
  have m: "\<forall>j < length (macd_series cl). macd_series cl ! j = None \<longleftrightarrow> j < 25"
    using macd_series_None_iff[OF assms(1)] by (simp add: length_macd_series)
  have i: "i < length (macd_series cl)" using assms(2) by (simp add: length_macd_series)
  have "ema (macd_series cl) 9 ! i = None \<longleftrightarrow> i + 1 < 25 + 9"
    by (rule ema_None_iff[OF m i]) simp
  then show ?thesis by (auto simp: macd_signal_series_def)
qed

lemma length_add_basic_indicators: "length (add_basic_indicators df) = length df"
  by (simp add: add_basic_indicators_def Let_def)

lemma add_basic_indicators_nth:
  assumes "i < length df"
  shows "add_basic_indicators df ! i =
     candle.extend (df ! i)
       (indicator_row.fields
          (rolling_mean 9 (map (\<lambda>c. Some (close c)) df) ! i)
          (rolling_mean 21 (map (\<lambda>c. Some (close c)) df) ! i)
          (rsi_series 14 (map (\<lambda>c. Some (close c)) df) ! i)
          (macd_series (map (\<lambda>c. Some (close c)) df) ! i)
          (macd_signal_series (map (\<lambda>c. Some (close c)) df) ! i))"
  using assms by (simp add: add_basic_indicators_def Let_def)

lemma row_fields:
  "candle.truncate (candle.extend c (indicator_row.fields a b r m s)) = c"
  "sma_fast (candle.extend c (indicator_row.fields a b r m s)) = a"
  "sma_slow (candle.extend c (indicator_row.fields a b r m s)) = b"
  "rsi (candle.extend c (indicator_row.fields a b r m s)) = r"
  "macd (candle.extend c (indicator_row.fields a b r m s)) = m"
  "macd_signal (candle.extend c (indicator_row.fields a b r m s)) = s"
  by (simp_all add: candle.defs indicator_row.defs)


section \<open>Properties of the indicator pipeline\<close>

text \<open>
  C7. The output has one row per input candle, row \<open>i\<close> carries candle \<open>i\<close>, and
  \<open>sma_fast\<close> (the rolling mean over 9 closes) is null exactly at the indices below 8:
  null at 0..7, a number from index 8 onward.
\<close>

theorem sma_fast_defined_from_index_8:
  "length (add_basic_indicators df) = length df \<and>
   (\<forall>i < length df.
      candle.truncate (add_basic_indicators df ! i) = df ! i \<and>
      (sma_fast (add_basic_indicators df ! i) = None \<longleftrightarrow> i < 8))"
proof (intro conjI allI impI)
  show "length (add_basic_indicators df) = length df"
    by (rule length_add_basic_indicators)
next
  fix i assume i: "i < length df"
  show "candle.truncate (add_basic_indicators df ! i) = df ! i"
    by (simp only: add_basic_indicators_nth[OF i] row_fields)
  have "rolling_mean 9 (map (\<lambda>c. Some (close c)) df) ! i = None \<longleftrightarrow> i + 1 < 9"
    by (rule rolling_mean_None_iff) (use i in auto)
  then show "sma_fast (add_basic_indicators df ! i) = None \<longleftrightarrow> i < 8"
    by (simp only: add_basic_indicators_nth[OF i] row_fields) auto
qed

theorem sma_fast_defined_from_index_8_witness:
  "sma_fast (add_basic_indicators (map sample_candle [1, 2, 3, 4, 5, 6, 7, 8, 9, 10]) ! 7) = None \<and>
   sma_fast (add_basic_indicators (map sample_candle [1, 2, 3, 4, 5, 6, 7, 8, 9, 10]) ! 8) \<noteq> None \<and>
   candle.truncate (add_basic_indicators (map sample_candle [1, 2, 3, 4, 5, 6, 7, 8, 9, 10]) ! 9)
     = sample_candle 10"
  using sma_fast_defined_from_index_8[of "map sample_candle [1, 2, 3, 4, 5, 6, 7, 8, 9, 10]"]
  by simp

text \<open>
  C2, as stated, fails: on a sequence of one candle both \<open>macd\<close> and \<open>macd_signal\<close> are
  null at index 0.
\<close>

theorem macd_null_at_first_candle:
  "macd (add_basic_indicators [sample_candle 100] ! 0) = None \<and>
   macd_signal (add_basic_indicators [sample_candle 100] ! 0) = None"
  by code_simp

text \<open>
  C2, amended. The exponential means are computed with \<open>min_periods\<close> equal to their
  window, so they do have a cutoff: \<open>macd\<close> is null exactly at the indices below 25 (the
  slow mean needs 26 closes) and \<open>macd_signal\<close> exactly at the indices below 33 (9 values
  of \<open>macd\<close> more).
\<close>

theorem macd_defined_from_index_25:
  "\<forall>i < length df.
      (macd (add_basic_indicators df ! i) = None \<longleftrightarrow> i < 25) \<and>
      (macd_signal (add_basic_indicators df ! i) = None \<longleftrightarrow> i < 33)"
proof (intro conjI allI impI)
  fix i assume i: "i < length df"
  let ?cl = "map (\<lambda>c. Some (close c)) df"
  have some: "\<forall>j < length ?cl. ?cl ! j \<noteq> None" by simp
  have i': "i < length ?cl" using i by simp
  show "macd (add_basic_indicators df ! i) = None \<longleftrightarrow> i < 25"
    using macd_series_None_iff[OF some i']
    by (simp only: add_basic_indicators_nth[OF i] row_fields)
  show "macd_signal (add_basic_indicators df ! i) = None \<longleftrightarrow> i < 33"
    using macd_signal_series_None_iff[OF some i']
    by (simp only: add_basic_indicators_nth[OF i] row_fields)
qed

theorem macd_defined_from_index_25_witness:
  "macd (add_basic_indicators (map sample_candle (map of_nat [0 ..< 40])) ! 24) = None \<and>
   macd (add_basic_indicators (map sample_candle (map of_nat [0 ..< 40])) ! 25) \<noteq> None \<and>
   macd_signal (add_basic_indicators (map sample_candle (map of_nat [0 ..< 40])) ! 32) = None \<and>
   macd_signal (add_basic_indicators (map sample_candle (map of_nat [0 ..< 40])) ! 33) \<noteq> None"
  using macd_defined_from_index_25[of "map sample_candle (map of_nat [0 ..< 40])"]
  by simp

section \<open>Properties of the order entry point\<close>

lemma get_client_lot_exchange:
  "get_client (lot_exchange a b) = Inr \<lparr>api_key = ''key'', api_secret = ''secret''\<rparr>"
  by (simp add: get_client_def lot_exchange_def not_set_def)

lemma lot_exchange_lookup:
  "get_lot_size_filter (lot_exchange a b) ''BTCUSDT'' =
     Inr [(''filterType'', ''LOT_SIZE''), (''minQty'', a),
          (''maxQty'', ''9000.00000000''), (''stepSize'', b)]"
proof -
  have u: "upper ''BTCUSDT'' = ''BTCUSDT''" by code_simp
  show ?thesis
    by (simp add: get_lot_size_filter_def get_client_lot_exchange u)
       (simp add: lot_exchange_def getitem_def)
qed

lemma lot_getitem:
  "getitem [(''filterType'', ''LOT_SIZE''), (''minQty'', a),
            (''maxQty'', ''9000.00000000''), (''stepSize'', b)] ''minQty'' = Inr a"
  "getitem [(''filterType'', ''LOT_SIZE''), (''minQty'', a),
            (''maxQty'', ''9000.00000000''), (''stepSize'', b)] ''stepSize'' = Inr b"
  by (simp_all add: getitem_def)

text \<open>
  C5, as stated, fails: without the API key, an order with quantity 0 and a valid side
  fails with the configuration error, since \<open>get_client\<close> runs before every check.
\<close>

theorem unconfigured_order_fails_with_config_error:
  "place_market_order unconfigured_exchange ''BTCUSDT'' ''BUY'' 0 = (Inl BinanceConfigError, [])"
  by (simp add: place_market_order_def get_client_def unconfigured_exchange_def not_set_def
      lot_exchange_def)

text \<open>
  C5, amended. Once the client is configured, an order with a quantity of zero or less
  and a valid side (BUY or SELL in any letter case) fails with the ValueError of the
  quantity check, for every symbol; no quantity is normalised and no request is sent.
\<close>

theorem nonpositive_quantity_rejected:
  assumes "get_client ex = Inr c"
    and "upper side = ''BUY'' \<or> upper side = ''SELL''"
    and "quantity \<le> 0"
  shows "place_market_order ex symbol side quantity = (Inl (ValueError Quantity_not_positive), [])"
  using assms by (auto simp: place_market_order_def Let_def)

theorem nonpositive_quantity_rejected_witness:
  "place_market_order (lot_exchange ''0.00001000'' ''0.00001000'') ''btcusdt'' ''buy'' (- 1)
     = (Inl (ValueError Quantity_not_positive), [])"
proof -
  have u: "upper ''buy'' = ''BUY'' \<or> upper ''buy'' = ''SELL''" by code_simp
  show ?thesis
    by (rule nonpositive_quantity_rejected[OF get_client_lot_exchange u]) simp
qed

text \<open>
  C10, as stated, fails in its last part: without the API key, an order with an invalid
  side and a negative quantity fails with the configuration error, not with the error of
  the side check.
\<close>

theorem unconfigured_invalid_side_fails_with_config_error:
  "place_market_order unconfigured_exchange ''BTCUSDT'' ''HOLD'' (- 1) = (Inl BinanceConfigError, [])"
  by (simp add: place_market_order_def get_client_def unconfigured_exchange_def not_set_def
      lot_exchange_def)

text \<open>
  C10, amended. Whenever the LOT_SIZE filter of the symbol is found and its \<open>minQty\<close> and
  \<open>stepSize\<close> are read, the normaliser returns normally on every quantity of zero or
  less, with the result it gives on the clamped quantity \<open>max quantity min_qty\<close> (which is
  \<open>min_qty\<close> itself when that is not negative). Once the client is configured, the order
  entry point checks the upper-cased side first: an invalid side fails with the error of
  the side check whatever the quantity, and only a valid side with a quantity of zero or
  less fails with the error of the quantity check.
\<close>

theorem normalizer_clamps_and_order_checks_side_first:
  "(get_lot_size_filter ex symbol = Inr lot \<and>
    getitem lot ''minQty'' = Inr min_str \<and> py_float min_str = Inr min_qty \<and>
    getitem lot ''stepSize'' = Inr step_str \<and> py_float step_str = Inr step_size \<and>
    quantity \<le> 0 \<longrightarrow>
      (\<exists>r. adjust_quantity_to_lot ex symbol quantity = Inr r \<and>
           adjust_quantity_to_lot ex symbol (max quantity min_qty) = Inr r \<and>
           (0 \<le> min_qty \<longrightarrow> adjust_quantity_to_lot ex symbol min_qty = Inr r))) \<and>
   (get_client ex = Inr c \<and> upper side \<noteq> ''BUY'' \<and> upper side \<noteq> ''SELL'' \<longrightarrow>
      place_market_order ex symbol side quantity = (Inl (ValueError Invalid_side), [])) \<and>
   (get_client ex = Inr c \<and> (upper side = ''BUY'' \<or> upper side = ''SELL'') \<and> quantity \<le> 0 \<longrightarrow>
      place_market_order ex symbol side quantity = (Inl (ValueError Quantity_not_positive), []))"
proof (intro conjI impI)
  assume h: "get_lot_size_filter ex symbol = Inr lot \<and>
    getitem lot ''minQty'' = Inr min_str \<and> py_float min_str = Inr min_qty \<and>
    getitem lot ''stepSize'' = Inr step_str \<and> py_float step_str = Inr step_size \<and>
    quantity \<le> 0"
  obtain d where d: "step_decimals step_str = Inr d" using step_decimals_total by blast
  note ev = adjust_quantity_to_lot_eval[of ex symbol lot min_str min_qty step_str step_size d]
  have e1: "\<exists>r. adjust_quantity_to_lot ex symbol quantity = Inr r"
    using h d by (simp add: ev Let_def)
  then obtain r where r: "adjust_quantity_to_lot ex symbol quantity = Inr r" ..
  have "adjust_quantity_to_lot ex symbol (max quantity min_qty)
      = adjust_quantity_to_lot ex symbol quantity"
    using h d by (auto simp: ev max_def Let_def)
  then have e2: "adjust_quantity_to_lot ex symbol (max quantity min_qty) = Inr r"
    using r by simp
  have e3: "0 \<le> min_qty \<longrightarrow> adjust_quantity_to_lot ex symbol min_qty = Inr r"
  proof
    assume "0 \<le> min_qty"
    then have "max quantity min_qty = min_qty" using h by (simp add: max_def)
    then show "adjust_quantity_to_lot ex symbol min_qty = Inr r" using e2 by simp
  qed
  show "\<exists>r. adjust_quantity_to_lot ex symbol quantity = Inr r \<and>
           adjust_quantity_to_lot ex symbol (max quantity min_qty) = Inr r \<and>
           (0 \<le> min_qty \<longrightarrow> adjust_quantity_to_lot ex symbol min_qty = Inr r)"
    using r e2 e3 by blast
next
  assume "get_client ex = Inr c \<and> upper side \<noteq> ''BUY'' \<and> upper side \<noteq> ''SELL''"
  then show "place_market_order ex symbol side quantity = (Inl (ValueError Invalid_side), [])"
    by (simp add: place_market_order_def Let_def)
next
  assume "get_client ex = Inr c \<and> (upper side = ''BUY'' \<or> upper side = ''SELL'') \<and> quantity \<le> 0"
  then show "place_market_order ex symbol side quantity = (Inl (ValueError Quantity_not_positive), [])"
    by (auto simp: place_market_order_def Let_def)
qed

theorem normalizer_clamps_and_order_checks_side_first_witness:
  "adjust_quantity_to_lot (lot_exchange ''0.00001000'' ''0.00001000'') ''BTCUSDT'' (- 1)
     = adjust_quantity_to_lot (lot_exchange ''0.00001000'' ''0.00001000'') ''BTCUSDT''
         (float_round (1 / 100000)) \<and>
   place_market_order (lot_exchange ''0.00001000'' ''0.00001000'') ''BTCUSDT'' ''hold'' (- 1)
     = (Inl (ValueError Invalid_side), []) \<and>
   place_market_order (lot_exchange ''0.00001000'' ''0.00001000'') ''BTCUSDT'' ''sell'' (- 1)
     = (Inl (ValueError Quantity_not_positive), [])"
proof -
  let ?ex = "lot_exchange ''0.00001000'' ''0.00001000''"
  let ?lot = "[(''filterType'', ''LOT_SIZE''), (''minQty'', ''0.00001000''),
               (''maxQty'', ''9000.00000000''), (''stepSize'', ''0.00001000'')]"
  have p: "py_float ''0.00001000'' = Inr (float_round (1 / 100000))" by code_simp
  have pos: "(0::rat) \<le> float_round (1 / 100000)" by code_simp
  have hold: "upper ''hold'' \<noteq> ''BUY'' \<and> upper ''hold'' \<noteq> ''SELL''" by code_simp
  have sell: "upper ''sell'' = ''BUY'' \<or> upper ''sell'' = ''SELL''" by code_simp
  have "\<exists>r. adjust_quantity_to_lot ?ex ''BTCUSDT'' (- 1) = Inr r \<and>
      adjust_quantity_to_lot ?ex ''BTCUSDT'' (max (- 1) (float_round (1 / 100000))) = Inr r \<and>
      (0 \<le> float_round (1 / 100000) \<longrightarrow>
         adjust_quantity_to_lot ?ex ''BTCUSDT'' (float_round (1 / 100000)) = Inr r)"
    using conjunct1[OF normalizer_clamps_and_order_checks_side_first
      [of ?ex "''BTCUSDT''" ?lot "''0.00001000''" "float_round (1 / 100000)" "''0.00001000''"
          "float_round (1 / 100000)" "- 1"]]
      lot_exchange_lookup[of "''0.00001000''" "''0.00001000''"]
      lot_getitem[of "''0.00001000''" "''0.00001000''"] p
    by simp
  then obtain r where
    "adjust_quantity_to_lot ?ex ''BTCUSDT'' (- 1) = Inr r"
    "0 \<le> float_round (1 / 100000) \<longrightarrow>
       adjust_quantity_to_lot ?ex ''BTCUSDT'' (float_round (1 / 100000)) = Inr r"
    by blast
  then have a: "adjust_quantity_to_lot ?ex ''BTCUSDT'' (- 1)
     = adjust_quantity_to_lot ?ex ''BTCUSDT'' (float_round (1 / 100000))"
    using pos by simp
  have b: "place_market_order ?ex ''BTCUSDT'' ''hold'' (- 1) = (Inl (ValueError Invalid_side), [])"
    using normalizer_clamps_and_order_checks_side_first
      [of ?ex _ _ _ _ _ _ "- 1" "\<lparr>api_key = ''key'', api_secret = ''secret''\<rparr>" "''hold''"]
      get_client_lot_exchange hold
    by blast
  have c: "place_market_order ?ex ''BTCUSDT'' ''sell'' (- 1)
      = (Inl (ValueError Quantity_not_positive), [])"
    using normalizer_clamps_and_order_checks_side_first
      [of ?ex _ _ _ _ _ _ "- 1" "\<lparr>api_key = ''key'', api_secret = ''secret''\<rparr>" "''sell''"]
      get_client_lot_exchange sell
    by simp
  show ?thesis using a b c by simp
qed

text \<open>
  C3. The quantity field of the request is \<open>str(adj_quantity)\<close>, the shortest repr of the
  float, which switches to exponent notation below \<open>0.0001\<close>: for the LOT_SIZE filter
  with \<open>minQty\<close> and \<open>stepSize\<close> \<open>0.00001000\<close> and a requested quantity of \<open>0.00001\<close>, the
  request carries the quantity string \<open>1e-05\<close>.
\<close>

theorem quantity_field_in_exponent_notation:
  "place_market_order (lot_exchange ''0.00001000'' ''0.00001000'') ''BTCUSDT'' ''BUY''
       (float_round (1 / 100000))
     = (Inr 1, [\<lparr>req_symbol = ''BTCUSDT'', req_side = ''BUY'', req_type = ''MARKET'',
                 req_quantity = ''1e-05''\<rparr>])"
  by code_simp

section \<open>Properties of the lot-size normaliser\<close>

lemma round_half_even_nearest: "\<bar>of_int (round_half_even y) - y\<bar> \<le> 1 / 2"
proof -
  have "of_int \<lfloor>y\<rfloor> \<le> y" "y < of_int \<lfloor>y\<rfloor> + 1" by linarith+
  then show ?thesis
    by (auto simp: round_half_even_def Let_def abs_le_iff)
qed

lemma round_half_even_small: "0 \<le> y \<Longrightarrow> y \<le> 1 / 2 \<Longrightarrow> round_half_even y = 0"
proof -
  assume a: "0 \<le> y" "y \<le> 1 / 2"
  then have f: "\<lfloor>y\<rfloor> = 0" by (simp add: floor_eq_iff)
  show ?thesis using a by (simp add: round_half_even_def Let_def f)
qed

lemma round_half_even_tie:
  assumes "\<bar>of_int (round_half_even y) - y\<bar> = 1 / 2"
  shows "even (round_half_even y)"
proof -
  let ?d = "y - of_int \<lfloor>y\<rfloor>"
  have d: "0 \<le> ?d" "?d < 1" by linarith+
  consider (less) "?d < 1 / 2" | (tie) "?d = 1 / 2" | (more) "1 / 2 < ?d" by linarith
  then show ?thesis
  proof cases
    case less
    have eq: "round_half_even y = \<lfloor>y\<rfloor>"
      by (simp only: round_half_even_def Let_def less if_True)
    from assms have "\<bar>of_int \<lfloor>y\<rfloor> - y\<bar> = 1 / 2" by (simp only: eq)
    with less d have False by linarith
    then show ?thesis ..
  next
    case tie
    show ?thesis unfolding round_half_even_def Let_def tie by simp
  next
    case more
    then have n: "\<not> ?d < 1 / 2" by simp
    have eq: "round_half_even y = \<lfloor>y\<rfloor> + 1"
      by (simp only: round_half_even_def Let_def n more if_True if_False)
    from assms have "\<bar>(of_int \<lfloor>y\<rfloor> + 1) - y\<bar> = 1 / 2" by (simp add: eq)
    with more d have False by linarith
    then show ?thesis ..
  qed
qed

lemma float_round_zero: "float_round 0 = 0"
  by (simp add: float_round_def)

lemma zero_step_literal:
  "py_float ''0.00000000'' = Inr 0" "step_decimals ''0.00000000'' = Inr 0"
  by code_simp+

text \<open>
  C1. The normalised quantity can be below \<open>min_quantity\<close>: with \<open>minQty\<close> \<open>1.00000000\<close>,
  \<open>stepSize\<close> \<open>0.00001000\<close> and a requested quantity of \<open>0.5\<close>, the quantity is clamped
  to 1.0, the float quotient \<open>1.0 / 0.00001\<close> is just below 100000, the floor is 99999,
  and the result is \<open>0.99999\<close>.
\<close>

theorem normalized_quantity_below_minimum:
  "adjust_quantity_to_lot (lot_exchange ''1.00000000'' ''0.00001000'') ''BTCUSDT''
       (float_round (1 / 2)) = Inr (float_round (99999 / 100000)) \<and>
   py_float ''1.00000000'' = Inr 1 \<and> float_round (99999 / 100000) < 1"
  by code_simp

text \<open>
  C6. Normalisation is not idempotent: with \<open>minQty\<close> and \<open>stepSize\<close> \<open>0.00001000\<close>, the
  quantity \<open>0.000075\<close> normalises to \<open>0.00007\<close>, and \<open>0.00007\<close> normalises to \<open>0.00006\<close>
  (the float quotient \<open>0.00007 / 0.00001\<close> is just below 7).
\<close>

theorem normalizing_twice_loses_a_step:
  "adjust_quantity_to_lot (lot_exchange ''0.00001000'' ''0.00001000'') ''BTCUSDT''
       (float_round (75 / 1000000)) = Inr (float_round (7 / 100000)) \<and>
   adjust_quantity_to_lot (lot_exchange ''0.00001000'' ''0.00001000'') ''BTCUSDT''
       (float_round (7 / 100000)) = Inr (float_round (6 / 100000)) \<and>
   float_round (6 / 100000) \<noteq> float_round (7 / 100000)"
  by code_simp



text \<open>
  C9, as stated, fails in its last part: with the step \<open>0.00000000\<close> and \<open>minQty\<close>
  \<open>1.00000000\<close>, the requested quantity \<open>0.3\<close> (below 0.5) normalises to 1.0, not 0.0.
\<close>

theorem zero_step_small_quantity_clamped_to_minimum:
  "adjust_quantity_to_lot (lot_exchange ''1.00000000'' ''0.00000000'') ''BTCUSDT''
      (float_round (3 / 10)) = Inr 1 \<and> float_round (3 / 10) < 1 / 2"
  by code_simp

text \<open>
  C9, amended. With the step-size string \<open>0.00000000\<close> the quantity is not quantised
  and is rendered with 0 decimals: the result is the float of the integer nearest to
  \<open>max quantity min_qty\<close> (the even one of the two when both are equally near, which
  is what the fixed-point rendering does), and it is 0.0 for every requested quantity
  below 0.5 when \<open>min_qty\<close> lies between 0 and 0.5.
\<close>

theorem zero_step_rounds_to_nearest_integer:
  assumes "get_lot_size_filter ex symbol = Inr lot"
    and "getitem lot ''minQty'' = Inr min_str" and "py_float min_str = Inr min_qty"
    and "getitem lot ''stepSize'' = Inr ''0.00000000''"
  shows "\<exists>n::int.
      adjust_quantity_to_lot ex symbol quantity = Inr (float_round (of_int n)) \<and>
      \<bar>of_int n - max quantity min_qty\<bar> \<le> 1 / 2 \<and>
      (\<bar>of_int n - max quantity min_qty\<bar> = 1 / 2 \<longrightarrow> even n) \<and>
      (0 \<le> min_qty \<and> min_qty \<le> 1 / 2 \<and> quantity < 1 / 2 \<longrightarrow>
         adjust_quantity_to_lot ex symbol quantity = Inr 0)"
proof -
  define v where "v = max quantity min_qty"
  define n where "n = (if v < 0 then - 1 else 1) * round_half_even \<bar>v\<bar>"
  have v: "(if quantity < min_qty then min_qty else quantity) = v"
    by (simp add: v_def max_def)
  have ev: "adjust_quantity_to_lot ex symbol quantity = Inr (float_round (of_int n))"
    using adjust_quantity_to_lot_eval[OF assms(1,2,3,4) zero_step_literal, of quantity]
    by (simp add: v n_def Let_def)
  have dist: "\<bar>of_int n - v\<bar> = \<bar>of_int (round_half_even \<bar>v\<bar>) - \<bar>v\<bar>\<bar>"
  proof (cases "v < 0")
    case True
    have "- of_int (round_half_even (- v)) - v = - (of_int (round_half_even (- v)) - (- v))"
      by simp
    then have "\<bar>- of_int (round_half_even (- v)) - v\<bar> = \<bar>of_int (round_half_even (- v)) - (- v)\<bar>"
      by (simp only: abs_minus_cancel)
    then show ?thesis using True by (simp add: n_def)
  next
    case False
    then show ?thesis by (simp add: n_def)
  qed
  have near: "\<bar>of_int n - v\<bar> \<le> 1 / 2"
    unfolding dist by (rule round_half_even_nearest)
  have tie: "\<bar>of_int n - v\<bar> = 1 / 2 \<longrightarrow> even n"
  proof
    assume "\<bar>of_int n - v\<bar> = 1 / 2"
    then have "even (round_half_even \<bar>v\<bar>)"
      unfolding dist by (rule round_half_even_tie)
    then show "even n" by (simp add: n_def)
  qed
  have small: "0 \<le> min_qty \<and> min_qty \<le> 1 / 2 \<and> quantity < 1 / 2 \<longrightarrow>
         adjust_quantity_to_lot ex symbol quantity = Inr 0"
  proof
    assume h: "0 \<le> min_qty \<and> min_qty \<le> 1 / 2 \<and> quantity < 1 / 2"
    then have "0 \<le> v" "v \<le> 1 / 2" by (auto simp: v_def max_def)
    then have "n = 0" by (simp add: n_def round_half_even_small)
    then show "adjust_quantity_to_lot ex symbol quantity = Inr 0"
      using ev by (simp add: float_round_zero)
  qed
  show ?thesis using ev near tie small unfolding v_def by blast
qed

theorem zero_step_rounds_to_nearest_integer_witness:
  "adjust_quantity_to_lot (lot_exchange ''0.00000000'' ''0.00000000'') ''BTCUSDT''
      (float_round (3 / 10)) = Inr 0 \<and>
   adjust_quantity_to_lot (lot_exchange ''2.50000000'' ''0.00000000'') ''BTCUSDT''
      (float_round (3 / 10)) = Inr 2"
proof -
  have q: "float_round (3 / 10) < 1 / 2" by code_simp
  have z: "adjust_quantity_to_lot (lot_exchange ''0.00000000'' ''0.00000000'') ''BTCUSDT''
      (float_round (3 / 10)) = Inr 0"
    using zero_step_rounds_to_nearest_integer
      [OF lot_exchange_lookup lot_getitem(1) zero_step_literal(1) lot_getitem(2),
       of "float_round (3 / 10)"] q
    by auto
  have m: "py_float ''2.50000000'' = Inr (5 / 2)" by code_simp
  have two: "float_round 2 = 2" by code_simp
  have mx: "max (float_round (3 / 10)) (5 / 2) = 5 / 2" using q by (simp add: max_def)
  obtain n :: int where
    r: "adjust_quantity_to_lot (lot_exchange ''2.50000000'' ''0.00000000'') ''BTCUSDT''
          (float_round (3 / 10)) = Inr (float_round (of_int n))"
    and near: "\<bar>of_int n - (5 / 2 :: rat)\<bar> \<le> 1 / 2"
    and tie: "\<bar>of_int n - (5 / 2 :: rat)\<bar> = 1 / 2 \<longrightarrow> even n"
    using zero_step_rounds_to_nearest_integer
      [OF lot_exchange_lookup lot_getitem(1) m lot_getitem(2), of "float_round (3 / 10)"]
    unfolding mx by blast
  have "(of_int 2 :: rat) \<le> of_int n" "(of_int n :: rat) \<le> of_int 3" using near by linarith+
  then have "2 \<le> n" "n \<le> 3" by (simp_all only: of_int_le_iff)
  then have "n = 2 \<or> n = 3" by auto
  moreover have "n \<noteq> 3"
  proof
    assume "n = 3"
    then have "\<bar>of_int n - (5 / 2 :: rat)\<bar> = 1 / 2" by simp
    with tie have "even n" by simp
    with \<open>n = 3\<close> show False by simp
  qed
  ultimately have "n = 2" by simp
  then have "adjust_quantity_to_lot (lot_exchange ''2.50000000'' ''0.00000000'') ''BTCUSDT''
      (float_round (3 / 10)) = Inr 2"
    using r two by simp
  then show ?thesis using z by simp
qed

end
